theory Spec2Isabelle
  imports Complex_Main
begin

section \<open>Evaluation harness of the DeepLab-ResNet network (evaluate.py)\<close>

text \<open>
  The script wires an input reader, a segmentation network and a streaming mean-IoU
  metric together, restores a checkpoint, runs a fixed number of evaluation steps and
  optionally writes one mask image per step. The reader, the network, the checkpoint
  machinery and the file system are collaborators outside the script; they enter the
  model as an environment record and an explicit world state.
\<close>

subsection \<open>Module constants\<close>

definition DATA_DIRECTORY :: string where
  "DATA_DIRECTORY = ''/data/cityscapes_dataset/cityscape''"

definition DATA_LIST_PATH :: string where
  "DATA_LIST_PATH = ''/data/cityscapes_dataset/cityscape/list/eval_list.txt''"

definition IGNORE_LABEL :: int where
  "IGNORE_LABEL = 255"

definition NUM_CLASSES :: int where
  "NUM_CLASSES = 19"

definition NUM_STEPS :: int where
  "NUM_STEPS = 500"

definition RESTORE_FROM :: string where
  "RESTORE_FROM = ''./deeplab_resnet.ckpt''"

definition SNAPSHOT_DIR :: string where
  "SNAPSHOT_DIR = ''./snapshots''"

definition SAVE_DIR :: string where
  "SAVE_DIR = ''./output/''"

definition IS_SAVE :: bool where
  "IS_SAVE = False"

subsection \<open>Configuration returned by \<open>get_arguments\<close>\<close>

record config =
  data_dir :: string
  data_list :: string
  ignore_label :: int
  num_classes :: int
  num_steps :: int
  restore_from :: string

text \<open>What \<open>get_arguments\<close> returns when no flag is given.\<close>

definition default_arguments :: config where
  "default_arguments =
     \<lparr>data_dir = DATA_DIRECTORY, data_list = DATA_LIST_PATH, ignore_label = IGNORE_LABEL,
      num_classes = NUM_CLASSES, num_steps = NUM_STEPS, restore_from = RESTORE_FROM\<rparr>"

subsection \<open>Flattening and the ignore weights (lines 100 to 102)\<close>

text \<open>
  A label map is a list of rows of integer class ids. \<open>tf.reshape(x, [-1,])\<close> lays the
  rows out one after the other.
\<close>

type_synonym label_map = "int list list"

definition reshape_flat :: "label_map \<Rightarrow> int list" where
  "reshape_flat m = concat m"

text \<open>
  \<open>weights = tf.cast(tf.less_equal(gt, args.num_classes - 1), tf.int32)\<close>: weight one
  where the ground-truth label is at most \<open>num_classes - 1\<close>, weight zero elsewhere. The
  comparison is on integers, so \<open>num_classes - 1\<close> may be negative.
\<close>

definition weight_of :: "int \<Rightarrow> int \<Rightarrow> int" where
  "weight_of n g = (if g \<le> n - 1 then 1 else 0)"

definition weights :: "int \<Rightarrow> int list \<Rightarrow> int list" where
  "weights n gt = map (weight_of n) gt"

subsection \<open>The streaming mean-IoU accumulator\<close>

text \<open>
  Modelled from the spec: \<open>tf.contrib.metrics.streaming_mean_iou\<close>, the metric
  accumulator the script calls at line 103, is library code that is not part of the
  sources. Its state is a \<open>num_classes \<times> num_classes\<close> matrix of counts, all zero at
  the start, indexed \<open>confusion[gt][pred]\<close>. An update increments the cell of every
  masked-in pixel pair; a pixel is masked in when its weight is not zero. The spec does
  not say what happens to a masked-in pixel whose class ids lie outside the matrix; the
  model leaves the matrix as it is there (the script never produces such a pixel: a
  masked-in label is below \<open>num_classes\<close> and the prediction is an argmax over
  \<open>num_classes\<close> channels). Counts are natural numbers and the ratios are exact
  rationals; the rounding of the library's floating-point numbers is not modelled.
\<close>

type_synonym confusion = "nat list list"

definition zeros :: "int \<Rightarrow> confusion" where
  "zeros n = replicate (nat n) (replicate (nat n) 0)"

definition bump :: "confusion \<Rightarrow> int \<Rightarrow> int \<Rightarrow> confusion" where
  "bump cm g p =
     (if 0 \<le> g \<and> nat g < length cm \<and> 0 \<le> p \<and> nat p < length (cm ! nat g)
      then cm[nat g := (cm ! nat g)[nat p := Suc (cm ! nat g ! nat p)]]
      else cm)"

fun update_pixels :: "confusion \<Rightarrow> (int \<times> int \<times> int) list \<Rightarrow> confusion" where
  "update_pixels cm [] = cm"
| "update_pixels cm ((p, g, w) # rest) =
     update_pixels (if w \<noteq> 0 then bump cm g p else cm) rest"

definition update_op :: "confusion \<Rightarrow> int list \<Rightarrow> int list \<Rightarrow> int list \<Rightarrow> confusion" where
  "update_op cm predictions labels ws = update_pixels cm (zip predictions (zip labels ws))"

definition row_sum :: "confusion \<Rightarrow> nat \<Rightarrow> nat" where
  "row_sum cm c = sum_list (cm ! c)"

definition col_sum :: "confusion \<Rightarrow> nat \<Rightarrow> nat" where
  "col_sum cm c = sum_list (map (\<lambda>row. row ! c) cm)"

definition intersection :: "confusion \<Rightarrow> nat \<Rightarrow> nat" where
  "intersection cm c = cm ! c ! c"

definition union :: "confusion \<Rightarrow> nat \<Rightarrow> int" where
  "union cm c = int (row_sum cm c) + int (col_sum cm c) - int (cm ! c ! c)"

definition valid_classes :: "confusion \<Rightarrow> nat list" where
  "valid_classes cm = filter (\<lambda>c. union cm c \<noteq> 0) [0..<length cm]"

definition iou :: "confusion \<Rightarrow> nat \<Rightarrow> rat" where
  "iou cm c = of_nat (intersection cm c) / of_int (union cm c)"

text \<open>
  The value query. The spec gives the mean over the classes with nonzero union and is
  silent on a matrix in which no class has one; the model returns \<open>None\<close> there.
\<close>

definition mean_iou :: "confusion \<Rightarrow> rat option" where
  "mean_iou cm =
     (let vs = valid_classes cm
      in if vs = [] then None
         else Some (sum_list (map (iou cm) vs) / of_nat (length vs)))"

text \<open>
  Line 103 as the script calls it: predictions and labels flattened, the weights of
  line 102 passed as \<open>weights\<close>.
\<close>

definition metric_update :: "int \<Rightarrow> confusion \<Rightarrow> label_map \<Rightarrow> label_map \<Rightarrow> confusion" where
  "metric_update n cm pred label =
     (let pred_flatten = reshape_flat pred;
          gt = reshape_flat label
      in update_op cm pred_flatten gt (weights n gt))"

subsection \<open>Strings: \<open>os.path.basename\<close>, \<open>str.split\<close>, \<open>int\<close>, \<open>str\<close>\<close>

text \<open>\<open>os.path.basename\<close> on POSIX: the text after the last slash.\<close>

definition basename :: "string \<Rightarrow> string" where
  "basename p = rev (takeWhile (\<lambda>c. c \<noteq> CHR ''/'') (rev p))"

text \<open>\<open>s.split(d)\<close> for a one-character separator: never empty, empty fields kept.\<close>

fun split_on :: "char \<Rightarrow> string \<Rightarrow> string list" where
  "split_on d [] = [[]]"
| "split_on d (c # cs) =
     (if c = d then [] # split_on d cs
      else (case split_on d cs of
              [] \<Rightarrow> [[c]]
            | f # fs \<Rightarrow> (c # f) # fs))"

text \<open>
  A Python string is modelled by its UTF-8 bytes; splitting at a dash or a slash is the
  same on the bytes as on the characters.

  \<open>int(s)\<close> on a string (Python 3.6 and later). On a string of ASCII characters:
  blanks at both ends are dropped, one sign is allowed, and the rest must be decimal
  digits, where a single underscore may stand between two digits; anything else raises
  \<open>ValueError\<close> (\<open>None\<close> here). On a string with a character beyond ASCII the
  interpreter first maps Unicode blanks and Unicode decimal digits to ASCII by its
  character tables; those tables are not reproduced, and the result on such a string is
  taken from the environment (\<open>py_int\<close> below). The interpreter's limit on the number
  of digits (4300 by default from Python 3.11 on) is beyond the length of a file name
  and is left out.
\<close>

definition is_ascii :: "char \<Rightarrow> bool" where
  "is_ascii c = ((of_char c :: nat) < 128)"

definition is_space :: "char \<Rightarrow> bool" where
  "is_space c = (c \<in> set [CHR '' '', CHR 0x09, CHR 0x0A, CHR 0x0B, CHR 0x0C, CHR 0x0D])"

definition strip :: "string \<Rightarrow> string" where
  "strip s = rev (dropWhile is_space (rev (dropWhile is_space s)))"

definition is_digit :: "char \<Rightarrow> bool" where
  "is_digit c = (48 \<le> (of_char c :: nat) \<and> (of_char c :: nat) \<le> 57)"

definition digits_value :: "string \<Rightarrow> nat" where
  "digits_value ds = foldl (\<lambda>a c. 10 * a + (of_char c - 48)) 0 ds"

text \<open>Digits with single underscores between them: \<open>1_000\<close>, not \<open>_1\<close>, \<open>1_\<close>, \<open>1__0\<close>.\<close>

fun grouped_digits :: "string \<Rightarrow> bool" where
  "grouped_digits [] = False"
| "grouped_digits [c] = is_digit c"
| "grouped_digits (c # d # r) =
     (if is_digit c
      then (if d = CHR ''_'' then grouped_digits r else grouped_digits (d # r))
      else False)"

definition unsigned_int :: "string \<Rightarrow> nat option" where
  "unsigned_int ds =
     (if grouped_digits ds then Some (digits_value (filter (\<lambda>c. c \<noteq> CHR ''_'') ds)) else None)"

definition ascii_int :: "string \<Rightarrow> int option" where
  "ascii_int s =
     (case strip s of
        [] \<Rightarrow> None
      | c # r \<Rightarrow>
          if c = CHR ''-'' then map_option (\<lambda>n. - int n) (unsigned_int r)
          else if c = CHR ''+'' then map_option int (unsigned_int r)
          else map_option int (unsigned_int (c # r)))"

text \<open>\<open>str(step)\<close> for the loop counter, which is never negative.\<close>

definition digit_char :: "nat \<Rightarrow> char" where
  "digit_char d = char_of (48 + d)"

fun str_nat :: "nat \<Rightarrow> string" where
  "str_nat n = (if n < 10 then [digit_char n] else str_nat (n div 10) @ [digit_char (n mod 10)])"

declare str_nat.simps [simp del]

subsection \<open>Errors, collaborators and the world\<close>

datatype error =
    IndexError          \<comment> \<open>\<open>split('-')[1]\<close> on a list with one element\<close>
  | ValueError          \<comment> \<open>\<open>int\<close> of a string that is no integer literal\<close>
  | RestoreError        \<comment> \<open>\<open>saver.restore\<close> failed\<close>
  | RunError            \<comment> \<open>\<open>sess.run\<close> failed, for instance on a missing image\<close>
  | SaveError           \<comment> \<open>\<open>im.save\<close> failed\<close>
  | FileExistsError     \<comment> \<open>\<open>os.makedirs\<close> on a path that names a regular file\<close>
  | OSError             \<comment> \<open>\<open>os.makedirs\<close> failed otherwise, for instance for lack of permission\<close>

text \<open>The value of \<open>tf.train.get_checkpoint_state\<close> when it is not \<open>None\<close>.\<close>

record checkpoint_state =
  model_checkpoint_path :: string

text \<open>What the model's variables hold: the initialiser's values or a checkpoint's.\<close>

datatype parameters = Initialized | Restored string

text \<open>
  A printed line. The line of the periodic report carries the step and the queried
  metric; how Python formats the number is not modelled.
\<close>

datatype printed = Text string | Report nat "rat option"

text \<open>
  The collaborators the script calls: the checkpoint state found in \<open>SNAPSHOT_DIR\<close>,
  whether restoring a path succeeds, the prediction and label map that one
  \<open>sess.run([pred, update_op])\<close> yields for given parameters at a given position of the
  reader (\<open>None\<close> when it raises), whether saving to a path succeeds, whether the
  operating system lets a directory be made at a path, and the value of \<open>int\<close> on a
  string with characters beyond ASCII (\<open>None\<close> when it raises).
\<close>

record env =
  get_checkpoint_state :: "string \<Rightarrow> checkpoint_state option"
  restore_succeeds :: "string \<Rightarrow> bool"
  forward :: "parameters \<Rightarrow> nat \<Rightarrow> (label_map \<times> label_map) option"
  save_succeeds :: "string \<Rightarrow> bool"
  makedirs_succeeds :: "string \<Rightarrow> bool"
  int_beyond_ascii :: "string \<Rightarrow> int option"

text \<open>
  The state the script acts on: the session's variables, the metric's confusion matrix,
  the reader's position, the directories and the regular files on disk, each under the
  path by which the script names it (the output directory under \<open>SAVE_DIR\<close>; a mask
  file holds the prediction whose colour image it is), and the lines printed so far.
\<close>

record world =
  params :: parameters
  total_cm :: confusion
  cursor :: nat
  dirs :: "string set"
  files :: "string \<rightharpoonup> label_map"
  stdout :: "printed list"

type_synonym 'a result = "(error + 'a) \<times> world"

subsection \<open>\<open>load\<close> and the checkpoint branch of \<open>main\<close> (lines 54 to 63, 117 to 125)\<close>

definition load :: "env \<Rightarrow> string \<Rightarrow> world \<Rightarrow> unit result" where
  "load e ckpt_path w =
     (if restore_succeeds e ckpt_path
      then (Inr (), w\<lparr>params := Restored ckpt_path,
                      stdout := stdout w @ [Text (''Restored model parameters from '' @ ckpt_path)]\<rparr>)
      else (Inl RestoreError, w))"

text \<open>\<open>int\<close> on any string.\<close>

definition py_int :: "env \<Rightarrow> string \<Rightarrow> int option" where
  "py_int e s = (if list_all is_ascii s then ascii_int s else int_beyond_ascii e s)"

text \<open>\<open>int(os.path.basename(path).split('-')[1])\<close>\<close>

definition parse_load_step :: "env \<Rightarrow> string \<Rightarrow> error + int" where
  "parse_load_step e path =
     (case split_on (CHR ''-'') (basename path) of
        _ # field # _ \<Rightarrow> (case py_int e field of None \<Rightarrow> Inl ValueError | Some n \<Rightarrow> Inr n)
      | _ \<Rightarrow> Inl IndexError)"

definition no_checkpoint :: "world \<Rightarrow> int result" where
  "no_checkpoint w = (Inr 0, w\<lparr>stdout := stdout w @ [Text ''No checkpoint file found.'']\<rparr>)"

text \<open>
  \<open>if ckpt and ckpt.model_checkpoint_path\<close>: a checkpoint state with a nonempty path.
  The result is the value bound to \<open>load_step\<close>.
\<close>

definition restore_checkpoint :: "env \<Rightarrow> world \<Rightarrow> int result" where
  "restore_checkpoint e w =
     (case get_checkpoint_state e SNAPSHOT_DIR of
        None \<Rightarrow> no_checkpoint w
      | Some ckpt \<Rightarrow>
          if model_checkpoint_path ckpt \<noteq> [] then
            (case parse_load_step e (model_checkpoint_path ckpt) of
               Inl err \<Rightarrow> (Inl err, w)
             | Inr load_step \<Rightarrow>
                 (case load e (model_checkpoint_path ckpt) w of
                    (Inl err, w') \<Rightarrow> (Inl err, w')
                  | (Inr _, w') \<Rightarrow> (Inr load_step, w')))
          else no_checkpoint w)"

subsection \<open>The evaluation loop (lines 130 to 143)\<close>

text \<open>
  \<open>os.path.exists(SAVE_DIR)\<close>: the path ends in a slash, so it exists only as a
  directory; a regular file \<open>./output\<close> does not make it exist.
\<close>

definition os_path_exists :: "world \<Rightarrow> string \<Rightarrow> bool" where
  "os_path_exists w p = (p \<in> dirs w)"

definition rstrip_slash :: "string \<Rightarrow> string" where
  "rstrip_slash p = rev (dropWhile (\<lambda>c. c = CHR ''/'') (rev p))"

text \<open>
  \<open>os.makedirs(p)\<close> raises \<open>FileExistsError\<close> when the path, without its closing
  slash, names a regular file, and another \<open>OSError\<close> when the operating system
  refuses (no permission, read-only disk); it makes the directory otherwise.
\<close>

definition os_makedirs :: "env \<Rightarrow> string \<Rightarrow> world \<Rightarrow> unit result" where
  "os_makedirs e p w =
     (if rstrip_slash p \<in> dom (files w) then (Inl FileExistsError, w)
      else if \<not> makedirs_succeeds e p then (Inl OSError, w)
      else (Inr (), w\<lparr>dirs := insert p (dirs w)\<rparr>))"

text \<open>Lines 130 and 131.\<close>

definition ensure_save_dir :: "env \<Rightarrow> world \<Rightarrow> unit result" where
  "ensure_save_dir e w =
     (if \<not> os_path_exists w SAVE_DIR then os_makedirs e SAVE_DIR w else (Inr (), w))"

text \<open>
  \<open>sess.run([pred, update_op])\<close>: one forward pass on the reader's next sample and one
  update of the metric with it; the prediction is returned.
\<close>

definition sess_run :: "config \<Rightarrow> env \<Rightarrow> world \<Rightarrow> label_map result" where
  "sess_run args e w =
     (case forward e (params w) (cursor w) of
        None \<Rightarrow> (Inl RunError, w)
      | Some (pred, label) \<Rightarrow>
          (Inr pred, w\<lparr>cursor := Suc (cursor w),
                        total_cm := metric_update (num_classes args) (total_cm w) pred label\<rparr>))"

definition mask_filename :: "nat \<Rightarrow> string" where
  "mask_filename step = ''mask'' @ str_nat step @ ''.png''"

definition save_mask :: "env \<Rightarrow> nat \<Rightarrow> label_map \<Rightarrow> world \<Rightarrow> unit result" where
  "save_mask e step preds w =
     (let filename = mask_filename step
      in if save_succeeds e (SAVE_DIR @ filename)
         then (Inr (), w\<lparr>files := (files w)(SAVE_DIR @ filename \<mapsto> preds)\<rparr>)
         else (Inl SaveError, w))"

text \<open>\<open>mIoU.eval(session=sess)\<close>: the value query, which hands the state back.\<close>

definition mIoU_eval :: "world \<Rightarrow> rat option \<times> world" where
  "mIoU_eval w = (mean_iou (total_cm w), w)"

definition report :: "nat \<Rightarrow> world \<Rightarrow> world" where
  "report step w =
     (if step mod 10 = 0
      then (case mIoU_eval w of (v, w') \<Rightarrow> w'\<lparr>stdout := stdout w' @ [Report step v]\<rparr>)
      else w)"

definition loop_body :: "config \<Rightarrow> bool \<Rightarrow> env \<Rightarrow> nat \<Rightarrow> world \<Rightarrow> unit result" where
  "loop_body args is_save e step w =
     (case sess_run args e w of
        (Inl err, w1) \<Rightarrow> (Inl err, w1)
      | (Inr preds, w1) \<Rightarrow>
          (case (if is_save then save_mask e step preds w1 else (Inr (), w1)) of
             (Inl err, w2) \<Rightarrow> (Inl err, w2)
           | (Inr _, w2) \<Rightarrow> (Inr (), report step w2)))"

fun eval_loop :: "config \<Rightarrow> bool \<Rightarrow> env \<Rightarrow> nat list \<Rightarrow> world \<Rightarrow> unit result" where
  "eval_loop args is_save e [] w = (Inr (), w)"
| "eval_loop args is_save e (step # steps) w =
     (case loop_body args is_save e step w of
        (Inl err, w') \<Rightarrow> (Inl err, w')
      | (Inr _, w') \<Rightarrow> eval_loop args is_save e steps w')"

text \<open>\<open>range(args.num_steps)\<close>: empty when the number is not positive.\<close>

definition range_steps :: "int \<Rightarrow> nat list" where
  "range_steps n = [0..<nat n]"

subsection \<open>\<open>main\<close>\<close>

text \<open>
  The two initialisers of lines 111 and 112 set the variables and zero the metric.
  \<open>IS_SAVE\<close> is a module constant; \<open>main_with\<close> takes it as a parameter so that both
  of its values can be examined, and \<open>main\<close> is the script as shipped.
\<close>

definition initialise :: "config \<Rightarrow> world \<Rightarrow> world" where
  "initialise args w = w\<lparr>params := Initialized, total_cm := zeros (num_classes args)\<rparr>"

definition main_with :: "bool \<Rightarrow> config \<Rightarrow> env \<Rightarrow> world \<Rightarrow> unit result" where
  "main_with is_save args e w0 =
     (case restore_checkpoint e (initialise args w0) of
        (Inl err, w1) \<Rightarrow> (Inl err, w1)
      | (Inr load_step, w1) \<Rightarrow>
          (case ensure_save_dir e w1 of
             (Inl err, w2) \<Rightarrow> (Inl err, w2)
           | (Inr _, w2) \<Rightarrow> eval_loop args is_save e (range_steps (num_steps args)) w2))"

definition main :: "config \<Rightarrow> env \<Rightarrow> world \<Rightarrow> unit result" where
  "main args e w0 = main_with IS_SAVE args e w0"

subsection \<open>Vocabulary of the statements\<close>

text \<open>
  A step of the loop goes through when the forward pass at the reader's position yields a
  sample and, with saving on, the mask file of the step can be written.
\<close>

definition step_succeeds :: "bool \<Rightarrow> env \<Rightarrow> parameters \<Rightarrow> nat \<Rightarrow> nat \<Rightarrow> bool" where
  "step_succeeds is_save e ps position step =
     (forward e ps position \<noteq> None \<and> (is_save \<longrightarrow> save_succeeds e (SAVE_DIR @ mask_filename step)))"

text \<open>The metric after the update with the sample at one position of the reader.\<close>

definition sample_update :: "config \<Rightarrow> env \<Rightarrow> parameters \<Rightarrow> confusion \<Rightarrow> nat \<Rightarrow> confusion" where
  "sample_update args e ps cm position =
     (case forward e ps position of
        None \<Rightarrow> cm
      | Some (pred, label) \<Rightarrow> metric_update (num_classes args) cm pred label)"

text \<open>
  The spec's condition on a checkpoint file name, in the spec's words: the name ends in
  a field, set off by a dash, that is an integer.
\<close>

definition spec_integer_step_suffix :: "env \<Rightarrow> string \<Rightarrow> bool" where
  "spec_integer_step_suffix e name =
     (case rev (split_on (CHR ''-'') name) of
        suffix # _ # _ \<Rightarrow> py_int e suffix \<noteq> None
      | _ \<Rightarrow> False)"

text \<open>
  Lines 130 and 131 go through: the output directory is there, or nothing stands in the
  way of making it. The world they leave has the directory.
\<close>

definition save_dir_ready :: "env \<Rightarrow> world \<Rightarrow> bool" where
  "save_dir_ready e w =
     (SAVE_DIR \<in> dirs w \<or> (rstrip_slash SAVE_DIR \<notin> dom (files w) \<and> makedirs_succeeds e SAVE_DIR))"

definition with_save_dir :: "world \<Rightarrow> world" where
  "with_save_dir w = w\<lparr>dirs := insert SAVE_DIR (dirs w)\<rparr>"

text \<open>A path names an entry directly inside a directory whose path ends in a slash.\<close>

definition in_directory :: "string \<Rightarrow> string \<Rightarrow> bool" where
  "in_directory d p =
     (take (length d) p = d \<and> length d < length p \<and> CHR ''/'' \<notin> set (drop (length d) p))"

text \<open>
  Concrete inputs: a configuration with three classes and two steps, an empty world, a
  world in which \<open>./output\<close> is a regular file, and collaborators that report a given
  checkpoint path, restore, save and make directories without failure, yield the same
  2 by 2 sample at every position of the reader but one, and whose \<open>int\<close> raises on every
  string with a character beyond ASCII (the names used below are ASCII).
\<close>

definition example_config :: config where
  "example_config =
     \<lparr>data_dir = ''/data'', data_list = ''/data/list.txt'', ignore_label = IGNORE_LABEL,
      num_classes = 3, num_steps = 2, restore_from = RESTORE_FROM\<rparr>"

definition example_world :: world where
  "example_world =
     \<lparr>params = Initialized, total_cm = [], cursor = 0, dirs = {}, files = Map.empty, stdout = []\<rparr>"

definition blocked_world :: world where
  "blocked_world = example_world\<lparr>files := [''./output'' \<mapsto> []]\<rparr>"

definition example_env :: "string option \<Rightarrow> nat \<Rightarrow> env" where
  "example_env ckpt_path broken =
     \<lparr>get_checkpoint_state =
        (\<lambda>d. if d = SNAPSHOT_DIR
              then map_option (\<lambda>p. \<lparr>model_checkpoint_path = p\<rparr>) ckpt_path else None),
      restore_succeeds = (\<lambda>p. True),
      forward = (\<lambda>ps position. if position = broken then None
                                 else Some ([[0, 1], [2, 0]], [[0, 1], [2, 1]])),
      save_succeeds = (\<lambda>p. True),
      makedirs_succeeds = (\<lambda>p. True),
      int_beyond_ascii = (\<lambda>s. None)\<rparr>"

section \<open>Properties\<close>

subsection \<open>One step and the whole loop\<close>

lemma report_fields:
  "params (report step w) = params w" "total_cm (report step w) = total_cm w"
  "cursor (report step w) = cursor w" "dirs (report step w) = dirs w"
  "files (report step w) = files w"
  by (simp_all add: report_def mIoU_eval_def)

lemma loop_body_ok:
  assumes "step_succeeds sv e (params w) (cursor w) step"
  shows "\<exists>w'. loop_body args sv e step w = (Inr (), w') \<and> params w' = params w
          \<and> cursor w' = Suc (cursor w) \<and> dirs w' = dirs w
          \<and> total_cm w' = sample_update args e (params w) (total_cm w) (cursor w)
          \<and> files w' = (if sv then (files w)(SAVE_DIR @ mask_filename step \<mapsto> fst (the (forward e (params w) (cursor w)))) else files w)"
  using assms
  by (auto simp: step_succeeds_def loop_body_def sess_run_def save_mask_def sample_update_def report_fields)

lemma loop_body_fail:
  assumes "\<not> step_succeeds sv e (params w) (cursor w) step"
  shows "\<exists>err w'. loop_body args sv e step w = (Inl err, w') \<and> err \<in> {RunError, SaveError} \<and> params w' = params w
          \<and> cursor w' = cursor w + (if forward e (params w) (cursor w) = None then 0 else 1) \<and> dirs w' = dirs w \<and> files w' = files w"
  using assms
  by (auto simp: step_succeeds_def loop_body_def sess_run_def save_mask_def sample_update_def report_fields)

lemma eval_loop_ok:
  "(\<forall>k<n. step_succeeds sv e (params w) (cursor w + k) (i + k)) \<Longrightarrow>
   \<exists>w'. eval_loop args sv e [i..<i + n] w = (Inr (), w') \<and> params w' = params w
      \<and> cursor w' = cursor w + n \<and> dirs w' = dirs w
      \<and> total_cm w' = foldl (sample_update args e (params w)) (total_cm w) [cursor w..<cursor w + n]
      \<and> dom (files w') = (if sv then dom (files w) \<union> (\<lambda>s. SAVE_DIR @ mask_filename s) ` {i..<i + n} else dom (files w))"
proof (induction n arbitrary: i w)
  case 0
  then show ?case by simp
next
  case (Suc n)
  from Suc.prems have "step_succeeds sv e (params w) (cursor w) i"
    by (metis add_0_right zero_less_Suc)
  from loop_body_ok [OF this, of args] obtain w1 where
    w1: "loop_body args sv e i w = (Inr (), w1)" "params w1 = params w"
        "cursor w1 = Suc (cursor w)" "dirs w1 = dirs w"
        "total_cm w1 = sample_update args e (params w) (total_cm w) (cursor w)"
        "files w1 = (if sv then (files w)(SAVE_DIR @ mask_filename i \<mapsto> fst (the (forward e (params w) (cursor w)))) else files w)"
    by blast
  have "\<forall>k<n. step_succeeds sv e (params w1) (cursor w1 + k) (Suc i + k)"
    using Suc.prems w1(2,3) by (metis Suc_less_eq add_Suc add_Suc_right)
  from Suc.IH [OF this] obtain w' where
    w': "eval_loop args sv e [Suc i..<Suc i + n] w1 = (Inr (), w')" "params w' = params w1"
        "cursor w' = cursor w1 + n" "dirs w' = dirs w1"
        "total_cm w' = foldl (sample_update args e (params w1)) (total_cm w1) [cursor w1..<cursor w1 + n]"
        "dom (files w') = (if sv then dom (files w1) \<union> (\<lambda>s. SAVE_DIR @ mask_filename s) ` {Suc i..<Suc i + n} else dom (files w1))"
    by blast
  have l1: "[i..<i + Suc n] = i # [Suc i..<Suc i + n]"
    by (simp add: upt_conv_Cons)
  have l2: "[cursor w..<cursor w + Suc n] = cursor w # [Suc (cursor w)..<Suc (cursor w) + n]"
    by (simp add: upt_conv_Cons)
  have s: "{i..<i + Suc n} = insert i {Suc i..<Suc i + n}"
    by auto
  have "eval_loop args sv e [i..<i + Suc n] w = (Inr (), w')"
    unfolding l1 using w1(1) w'(1) by simp
  moreover have "total_cm w' = foldl (sample_update args e (params w)) (total_cm w) [cursor w..<cursor w + Suc n]"
    unfolding l2 using w1 w' by simp
  moreover have "dom (files w') = (if sv then dom (files w) \<union> (\<lambda>s. SAVE_DIR @ mask_filename s) ` {i..<i + Suc n} else dom (files w))"
    unfolding s using w1(6) w'(6) by auto
  ultimately show ?case using w1 w' by simp
qed

lemma eval_loop_fail:
  "j < n \<Longrightarrow> (\<forall>k<j. step_succeeds sv e (params w) (cursor w + k) (i + k)) \<Longrightarrow>
   \<not> step_succeeds sv e (params w) (cursor w + j) (i + j) \<Longrightarrow>
   \<exists>err w'. eval_loop args sv e [i..<i + n] w = (Inl err, w') \<and> err \<in> {RunError, SaveError}
      \<and> cursor w' = cursor w + j + (if forward e (params w) (cursor w + j) = None then 0 else 1)
      \<and> dirs w' = dirs w"
proof (induction j arbitrary: i n w)
  case 0
  then obtain m where n: "n = Suc m" by (cases n) auto
  have l1: "[i..<i + n] = i # [Suc i..<Suc i + m]"
    unfolding n by (simp add: upt_conv_Cons)
  from 0 have "\<not> step_succeeds sv e (params w) (cursor w) i" by simp
  from loop_body_fail [OF this, of args] show ?case
    unfolding l1 by auto
next
  case (Suc j)
  then obtain m where n: "n = Suc m" and jm: "j < m" by (cases n) auto
  have l1: "[i..<i + n] = i # [Suc i..<Suc i + m]"
    unfolding n by (simp add: upt_conv_Cons)
  from Suc.prems have "step_succeeds sv e (params w) (cursor w) i"
    by (metis add_0_right zero_less_Suc)
  from loop_body_ok [OF this, of args] obtain w1 where
    w1: "loop_body args sv e i w = (Inr (), w1)" "params w1 = params w"
        "cursor w1 = Suc (cursor w)" "dirs w1 = dirs w"
    by blast
  have a: "\<forall>k<j. step_succeeds sv e (params w1) (cursor w1 + k) (Suc i + k)"
    using Suc.prems(2) w1(2,3) by (metis Suc_less_eq add_Suc add_Suc_right)
  have b: "\<not> step_succeeds sv e (params w1) (cursor w1 + j) (Suc i + j)"
    using Suc.prems(3) w1(2,3) by simp
  from Suc.IH [OF jm a b] obtain err w' where
    "eval_loop args sv e [Suc i..<Suc i + m] w1 = (Inl err, w')" "err \<in> {RunError, SaveError}"
    "cursor w' = cursor w1 + j + (if forward e (params w1) (cursor w1 + j) = None then 0 else 1)"
    "dirs w' = dirs w1"
    by blast
  then show ?case
    unfolding l1 using w1 by simp
qed

lemma eval_loop_dirs: "dirs (snd (eval_loop args sv e steps w)) = dirs w"
proof (induction steps arbitrary: w)
  case Nil
  then show ?case by simp
next
  case (Cons s steps)
  show ?case
  proof (cases "step_succeeds sv e (params w) (cursor w) s")
    case True
    from loop_body_ok [OF this, of args] obtain w1 where
      w1: "loop_body args sv e s w = (Inr (), w1)" "dirs w1 = dirs w"
      by blast
    have "eval_loop args sv e (s # steps) w = eval_loop args sv e steps w1"
      by (simp add: w1(1))
    then show ?thesis
      by (simp only: Cons.IH w1(2))
  next
    case False
    from loop_body_fail [OF this, of args] obtain err w1 where
      w1: "loop_body args sv e s w = (Inl err, w1)" "dirs w1 = dirs w"
      by blast
    have "eval_loop args sv e (s # steps) w = (Inl err, w1)"
      by (simp add: w1(1))
    then show ?thesis
      by (simp only: snd_conv w1(2))
  qed
qed

lemma restore_checkpoint_frame:
  "restore_checkpoint e w = (r, w') \<Longrightarrow>
     files w' = files w \<and> dirs w' = dirs w \<and> cursor w' = cursor w \<and> total_cm w' = total_cm w"
  by (auto simp: restore_checkpoint_def no_checkpoint_def load_def
           split: option.splits if_splits sum.splits prod.splits)

lemma restore_checkpoint_none:
  "get_checkpoint_state e SNAPSHOT_DIR = None \<Longrightarrow>
   restore_checkpoint e w = (Inr 0, w\<lparr>stdout := stdout w @ [Text ''No checkpoint file found.'']\<rparr>)"
  by (simp add: restore_checkpoint_def no_checkpoint_def)

lemma with_save_dir_fields:
  "SAVE_DIR \<in> dirs (with_save_dir w)" "params (with_save_dir w) = params w"
  "cursor (with_save_dir w) = cursor w" "files (with_save_dir w) = files w"
  "total_cm (with_save_dir w) = total_cm w" "stdout (with_save_dir w) = stdout w"
  by (simp_all add: with_save_dir_def)

lemma ensure_save_dir_ready:
  "save_dir_ready e w \<Longrightarrow> ensure_save_dir e w = (Inr (), with_save_dir w)"
  by (auto simp: save_dir_ready_def ensure_save_dir_def os_path_exists_def os_makedirs_def
                 with_save_dir_def insert_absorb)

lemma ensure_save_dir_blocked:
  "\<not> save_dir_ready e w \<Longrightarrow>
   ensure_save_dir e w
     = (Inl (if rstrip_slash SAVE_DIR \<in> dom (files w) then FileExistsError else OSError), w)"
  by (auto simp: save_dir_ready_def ensure_save_dir_def os_path_exists_def os_makedirs_def)

lemma ensure_save_dir_Inr:
  assumes "ensure_save_dir e w = (Inr u, w')"
  shows "save_dir_ready e w \<and> w' = with_save_dir w"
proof (cases "save_dir_ready e w")
  case True
  with assms ensure_save_dir_ready [OF True] show ?thesis by simp
next
  case False
  with assms ensure_save_dir_blocked [OF False] show ?thesis by simp
qed

lemma save_dir_ready_frame:
  "dirs w' = dirs w \<Longrightarrow> files w' = files w \<Longrightarrow> save_dir_ready e w' = save_dir_ready e w"
  by (simp add: save_dir_ready_def)

lemma eval_loop_upt0:
  "eval_loop args sv e (range_steps (int n)) w = eval_loop args sv e [0..<0 + n] w"
  by (simp add: range_steps_def)

lemma eval_loop_succeeds_iff:
  "(\<exists>w'. eval_loop args sv e [i..<i + n] w = (Inr (), w'))
   = (\<forall>k<n. step_succeeds sv e (params w) (cursor w + k) (i + k))"
proof
  assume ok: "\<exists>w'. eval_loop args sv e [i..<i + n] w = (Inr (), w')"
  show "\<forall>k<n. step_succeeds sv e (params w) (cursor w + k) (i + k)"
  proof (rule ccontr)
    assume "\<not> (\<forall>k<n. step_succeeds sv e (params w) (cursor w + k) (i + k))"
    then have "\<exists>j. j < n \<and> \<not> step_succeeds sv e (params w) (cursor w + j) (i + j)"
      by blast
    then obtain j where j: "j < n \<and> \<not> step_succeeds sv e (params w) (cursor w + j) (i + j)"
      and least: "\<forall>k<j. \<not> (k < n \<and> \<not> step_succeeds sv e (params w) (cursor w + k) (i + k))"
      using exists_least_iff [of "\<lambda>j. j < n \<and> \<not> step_succeeds sv e (params w) (cursor w + j) (i + j)"]
      by blast
    from j least have "\<forall>k<j. step_succeeds sv e (params w) (cursor w + k) (i + k)"
      by (meson less_trans)
    from eval_loop_fail [OF _ this, of n args] j ok show False
      by auto
  qed
next
  assume "\<forall>k<n. step_succeeds sv e (params w) (cursor w + k) (i + k)"
  from eval_loop_ok [OF this, of args] show "\<exists>w'. eval_loop args sv e [i..<i + n] w = (Inr (), w')"
    by blast
qed

subsection \<open>The metric\<close>

lemma update_pixels_zero_weights:
  "(\<forall>t \<in> set ts. snd (snd t) = 0) \<Longrightarrow> update_pixels cm ts = cm"
  by (induction cm ts rule: update_pixels.induct) auto

lemma update_pixels_filter:
  "update_pixels cm ts = update_pixels cm (filter (\<lambda>t. snd (snd t) \<noteq> 0) ts)"
  by (induction cm ts rule: update_pixels.induct) auto

text \<open>
  C1. A pixel whose ground-truth label is at least \<open>num_classes\<close> gets weight zero, an
  update made of such pixels only leaves the confusion matrix as it was, and in any
  update the pixels that count are exactly those whose label is below \<open>num_classes\<close>.
\<close>

theorem ignored_labels_contribute_nothing:
  "(n \<le> g \<longrightarrow> weight_of n g = 0)
   \<and> ((\<forall>g \<in> set (reshape_flat label). n \<le> g) \<longrightarrow> metric_update n cm pred label = cm)
   \<and> update_op cm ps gs (weights n gs)
       = update_pixels cm (filter (\<lambda>(p, g, w). g < n) (zip ps (zip gs (weights n gs))))"
proof (intro conjI impI)
  show "weight_of n g = 0" if "n \<le> g"
    using that by (simp add: weight_of_def)
next
  assume a: "\<forall>g \<in> set (reshape_flat label). n \<le> g"
  have "\<forall>t \<in> set (zip (reshape_flat pred) (zip (reshape_flat label) (weights n (reshape_flat label)))). snd (snd t) = 0"
  proof
    fix t assume "t \<in> set (zip (reshape_flat pred) (zip (reshape_flat label) (weights n (reshape_flat label))))"
    then have "snd t \<in> set (zip (reshape_flat label) (weights n (reshape_flat label)))"
      by (metis prod.collapse set_zip_rightD)
    then have "snd (snd t) = weight_of n (fst (snd t))" and "fst (snd t) \<in> set (reshape_flat label)"
      by (auto simp: weights_def zip_map2 in_set_zip)
    with a show "snd (snd t) = 0"
      by (fastforce simp: weight_of_def)
  qed
  then show "metric_update n cm pred label = cm"
    by (simp add: metric_update_def update_op_def update_pixels_zero_weights)
next
  have "filter (\<lambda>t. snd (snd t) \<noteq> 0) (zip ps (zip gs (weights n gs)))
        = filter (\<lambda>(p, g, w). g < n) (zip ps (zip gs (weights n gs)))"
  proof (rule filter_cong [OF refl])
    fix t assume "t \<in> set (zip ps (zip gs (weights n gs)))"
    then have "snd t \<in> set (zip gs (weights n gs))"
      by (metis prod.collapse set_zip_rightD)
    then have "snd (snd t) = weight_of n (fst (snd t))"
      by (auto simp: weights_def zip_map2 in_set_zip)
    then show "(snd (snd t) \<noteq> 0) = (case t of (p, g, w) \<Rightarrow> g < n)"
      by (cases t) (auto simp: weight_of_def)
  qed
  then show "update_op cm ps gs (weights n gs)
       = update_pixels cm (filter (\<lambda>(p, g, w). g < n) (zip ps (zip gs (weights n gs))))"
    unfolding update_op_def using update_pixels_filter [of cm "zip ps (zip gs (weights n gs))"] by simp
qed

theorem ignored_labels_contribute_nothing_witness:
  "weight_of 3 255 = 0
   \<and> reshape_flat [[3, 255]] = [3, 255] \<and> (3::int) \<le> 3 \<and> (3::int) \<le> 255
   \<and> metric_update 3 [[1, 0, 0], [1, 1, 0], [0, 0, 1]] [[0, 1]] [[3, 255]] = [[1, 0, 0], [1, 1, 0], [0, 0, 1]]"
  using ignored_labels_contribute_nothing [of 3 255 "[[3, 255]]" "[[1, 0, 0], [1, 1, 0], [0, 0, 1]]" "[[0, 1]]"]
  by (simp add: reshape_flat_def)

text \<open>
  C2. For every confusion matrix the intersection of class \<open>c\<close> is the diagonal cell, its
  union is row sum plus column sum minus the diagonal cell, and the mean IoU is the
  average of intersection over union taken over the classes whose union is not zero.
\<close>

theorem mean_iou_characterisation:
  "intersection cm c = cm ! c ! c
   \<and> union cm c = int (row_sum cm c) + int (col_sum cm c) - int (cm ! c ! c)
   \<and> mean_iou cm =
       (if {k. k < length cm \<and> union cm k \<noteq> 0} = {} then None
        else Some ((\<Sum>k \<in> {k. k < length cm \<and> union cm k \<noteq> 0}.
                      of_nat (intersection cm k) / of_int (union cm k))
                   / of_nat (card {k. k < length cm \<and> union cm k \<noteq> 0})))"
proof -
  let ?V = "{k. k < length cm \<and> union cm k \<noteq> 0}"
  have s: "set (valid_classes cm) = ?V"
    by (auto simp: valid_classes_def)
  have d: "distinct (valid_classes cm)"
    by (simp add: valid_classes_def)
  have e: "(valid_classes cm = []) = (?V = {})"
    using s by (metis set_empty)
  have l: "length (valid_classes cm) = card ?V"
    using s d by (metis distinct_card)
  have m: "sum_list (map (iou cm) (valid_classes cm)) = (\<Sum>k \<in> ?V. iou cm k)"
    using s d by (metis sum_list_distinct_conv_sum_set)
  show ?thesis
    unfolding mean_iou_def Let_def e l m
    by (simp add: intersection_def union_def iou_def)
qed

text \<open>
  C3, as stated, fails: for three classes, the prediction \<open>[[0,1],[2,0]]\<close> and the ground
  truth \<open>[[0,1],[2,1]]\<close>, the mean IoU is neither 5/6 nor 0.8333, and the per-class
  ratios are not 1, 1/2, 1.
\<close>

theorem scenario_mean_iou_counterexample:
  "mean_iou (metric_update 3 (zeros 3) [[0, 1], [2, 0]] [[0, 1], [2, 1]]) \<noteq> Some (5 / 6)
   \<and> mean_iou (metric_update 3 (zeros 3) [[0, 1], [2, 0]] [[0, 1], [2, 1]]) \<noteq> Some (8333 / 10000)
   \<and> map (iou (metric_update 3 (zeros 3) [[0, 1], [2, 0]] [[0, 1], [2, 1]])) [0, 1, 2] \<noteq> [1, 1 / 2, 1]"
  by code_simp

text \<open>
  C3, amended. In that scenario one update yields the confusion matrix with three
  diagonal entries and the one off-diagonal entry \<open>confusion[1][0]\<close>; the mismatch
  costs both class 0 and class 1, so the per-class ratios are 1/2, 1/2, 1 and the mean
  IoU is 2/3.
\<close>

theorem scenario_mean_iou:
  "metric_update 3 (zeros 3) [[0, 1], [2, 0]] [[0, 1], [2, 1]] = [[1, 0, 0], [1, 1, 0], [0, 0, 1]]
   \<and> map (iou (metric_update 3 (zeros 3) [[0, 1], [2, 0]] [[0, 1], [2, 1]])) [0, 1, 2] = [1 / 2, 1 / 2, 1]
   \<and> mean_iou (metric_update 3 (zeros 3) [[0, 1], [2, 0]] [[0, 1], [2, 1]]) = Some (2 / 3)"
  by code_simp

text \<open>
  C4. The value query hands back the state it was given, a second query returns what
  the first returned, a step run after a query is the step run without it, and the
  periodic report changes nothing but the printed lines.
\<close>

theorem value_query_non_mutating:
  "snd (mIoU_eval w) = w
   \<and> fst (mIoU_eval (snd (mIoU_eval w))) = fst (mIoU_eval w)
   \<and> sess_run args e (snd (mIoU_eval w)) = sess_run args e w
   \<and> total_cm (report step w) = total_cm w
   \<and> report step w = w\<lparr>stdout := stdout (report step w)\<rparr>
   \<and> metric_update n (total_cm (report step w)) pred label = metric_update n (total_cm w) pred label"
  by (simp add: mIoU_eval_def report_def)


subsection \<open>The checkpoint branch\<close>

lemma main_with_no_checkpoint:
  "get_checkpoint_state e SNAPSHOT_DIR = None \<Longrightarrow>
   main_with sv args e w0 =
     (case ensure_save_dir e
             ((initialise args w0)\<lparr>stdout := stdout w0 @ [Text ''No checkpoint file found.'']\<rparr>) of
        (Inl err, w2) \<Rightarrow> (Inl err, w2)
      | (Inr u, w2) \<Rightarrow> eval_loop args sv e (range_steps (num_steps args)) w2)"
  by (simp add: main_with_def restore_checkpoint_none initialise_def)

lemma main_with_no_checkpoint_ready:
  assumes "get_checkpoint_state e SNAPSHOT_DIR = None" and "save_dir_ready e w0"
  shows "main_with sv args e w0 =
     eval_loop args sv e (range_steps (num_steps args))
       (with_save_dir ((initialise args w0)\<lparr>stdout := stdout w0 @ [Text ''No checkpoint file found.'']\<rparr>))"
proof -
  let ?w1 = "(initialise args w0)\<lparr>stdout := stdout w0 @ [Text ''No checkpoint file found.'']\<rparr>"
  have "save_dir_ready e ?w1 = save_dir_ready e w0"
    by (rule save_dir_ready_frame) (simp_all add: initialise_def)
  with assms(2) have "ensure_save_dir e ?w1 = (Inr (), with_save_dir ?w1)"
    by (simp add: ensure_save_dir_ready)
  then show ?thesis
    unfolding main_with_no_checkpoint [OF assms(1)] by simp
qed

lemma example_env_simps:
  "get_checkpoint_state (example_env c b) SNAPSHOT_DIR = map_option (\<lambda>p. \<lparr>model_checkpoint_path = p\<rparr>) c"
  "restore_succeeds (example_env c b) p = True"
  "save_succeeds (example_env c b) p = True"
  "forward (example_env c b) ps k = (if k = b then None else Some ([[0, 1], [2, 0]], [[0, 1], [2, 1]]))"
  "makedirs_succeeds (example_env c b) p = True"
  "int_beyond_ascii (example_env c b) s = None"
  by (simp_all add: example_env_def)

lemma example_world_ready: "save_dir_ready (example_env c b) example_world"
  by (simp add: save_dir_ready_def example_env_simps example_world_def)

lemma blocked_world_not_ready:
  "\<not> save_dir_ready e blocked_world" "rstrip_slash SAVE_DIR \<in> dom (files blocked_world)"
  by (simp_all add: save_dir_ready_def blocked_world_def example_world_def rstrip_slash_def SAVE_DIR_def)

lemma ascii_int_examples:
  "py_int e ''final'' = None" "py_int e ''5'' = Some 5" "py_int e ''1_000'' = Some 1000"
  by (simp_all add: py_int_def is_ascii_def ascii_int_def strip_def is_space_def unsigned_int_def
                    is_digit_def digits_value_def)

text \<open>
  C5. When \<open>SNAPSHOT_DIR\<close> holds no checkpoint, the checkpoint branch prints
  \<open>No checkpoint file found.\<close>, binds \<open>load_step\<close> to 0 and raises nothing; \<open>main\<close>
  goes on from there, with the parameters the initialiser set, to lines 130 and 131 and
  the evaluation loop. When the output directory is there or can be made and every
  forward pass yields a sample, the run ends without an error after \<open>num_steps\<close> passes.
\<close>

theorem no_checkpoint_run_proceeds:
  assumes "get_checkpoint_state e SNAPSHOT_DIR = None"
  shows "restore_checkpoint e w = (Inr 0, w\<lparr>stdout := stdout w @ [Text ''No checkpoint file found.'']\<rparr>)
    \<and> main args e w0 =
        (case ensure_save_dir e
                ((initialise args w0)\<lparr>stdout := stdout w0 @ [Text ''No checkpoint file found.'']\<rparr>) of
           (Inl err, w2) \<Rightarrow> (Inl err, w2)
         | (Inr u, w2) \<Rightarrow> eval_loop args IS_SAVE e (range_steps (num_steps args)) w2)
    \<and> params ((initialise args w0)\<lparr>stdout := stdout w0 @ [Text ''No checkpoint file found.'']\<rparr>)
        = Initialized
    \<and> (save_dir_ready e w0
         \<and> (\<forall>k < nat (num_steps args). forward e Initialized (cursor w0 + k) \<noteq> None) \<longrightarrow>
         (\<exists>w'. main args e w0 = (Inr (), w') \<and> params w' = Initialized
               \<and> cursor w' = cursor w0 + nat (num_steps args)))"
proof (intro conjI impI)
  show "restore_checkpoint e w = (Inr 0, w\<lparr>stdout := stdout w @ [Text ''No checkpoint file found.'']\<rparr>)"
    using assms by (rule restore_checkpoint_none)
next
  show "main args e w0 =
        (case ensure_save_dir e
                ((initialise args w0)\<lparr>stdout := stdout w0 @ [Text ''No checkpoint file found.'']\<rparr>) of
           (Inl err, w2) \<Rightarrow> (Inl err, w2)
         | (Inr u, w2) \<Rightarrow> eval_loop args IS_SAVE e (range_steps (num_steps args)) w2)"
    unfolding main_def using assms by (rule main_with_no_checkpoint)
next
  show "params ((initialise args w0)\<lparr>stdout := stdout w0 @ [Text ''No checkpoint file found.'']\<rparr>)
        = Initialized"
    by (simp add: initialise_def)
next
  let ?w = "with_save_dir ((initialise args w0)\<lparr>stdout := stdout w0 @ [Text ''No checkpoint file found.'']\<rparr>)"
  let ?n = "nat (num_steps args)"
  assume "save_dir_ready e w0 \<and> (\<forall>k < ?n. forward e Initialized (cursor w0 + k) \<noteq> None)"
  then have ready: "save_dir_ready e w0"
    and a: "\<forall>k < ?n. forward e Initialized (cursor w0 + k) \<noteq> None"
    by simp_all
  have p: "params ?w = Initialized" and c: "cursor ?w = cursor w0"
    by (simp_all add: with_save_dir_fields initialise_def)
  have "\<forall>k < ?n. step_succeeds IS_SAVE e (params ?w) (cursor ?w + k) (0 + k)"
    unfolding p c using a by (simp add: step_succeeds_def IS_SAVE_def)
  from eval_loop_ok [OF this, of args] obtain w' where
    "eval_loop args IS_SAVE e [0..<0 + ?n] ?w = (Inr (), w')" "params w' = params ?w"
    "cursor w' = cursor ?w + ?n"
    by blast
  then have "main args e w0 = (Inr (), w') \<and> params w' = Initialized \<and> cursor w' = cursor w0 + ?n"
    unfolding main_def main_with_no_checkpoint_ready [OF assms ready] p c by (simp add: range_steps_def)
  then show "\<exists>w'. main args e w0 = (Inr (), w') \<and> params w' = Initialized
               \<and> cursor w' = cursor w0 + nat (num_steps args)"
    by blast
qed

theorem no_checkpoint_run_proceeds_witness:
  "get_checkpoint_state (example_env None 2) SNAPSHOT_DIR = None
   \<and> save_dir_ready (example_env None 2) example_world
   \<and> fst (restore_checkpoint (example_env None 2) example_world) = Inr 0
   \<and> stdout (snd (restore_checkpoint (example_env None 2) example_world)) = [Text ''No checkpoint file found.'']
   \<and> fst (main example_config (example_env None 2) example_world) = Inr ()
   \<and> params (snd (main example_config (example_env None 2) example_world)) = Initialized
   \<and> cursor (snd (main example_config (example_env None 2) example_world)) = 2"
proof -
  have h: "get_checkpoint_state (example_env None 2) SNAPSHOT_DIR = None"
    by (simp add: example_env_simps)
  have n: "nat (num_steps example_config) = 2" and c: "cursor example_world = 0"
    by (simp_all add: example_config_def example_world_def)
  have f: "save_dir_ready (example_env None 2) example_world
           \<and> (\<forall>k < nat (num_steps example_config).
                 forward (example_env None 2) Initialized (cursor example_world + k) \<noteq> None)"
    unfolding n c by (simp add: example_env_simps example_world_ready)
  note t = no_checkpoint_run_proceeds [OF h, of example_world example_config example_world]
  from t have r: "restore_checkpoint (example_env None 2) example_world
      = (Inr 0, example_world\<lparr>stdout := stdout example_world @ [Text ''No checkpoint file found.'']\<rparr>)"
    by (rule conjunct1)
  from t f obtain w' where
    w': "main example_config (example_env None 2) example_world = (Inr (), w')"
        "params w' = Initialized" "cursor w' = cursor example_world + nat (num_steps example_config)"
    by blast
  show ?thesis
    unfolding r w'(1) using h n c w'(2,3) example_world_ready by (simp add: example_world_def)
qed

lemma parse_load_step_malformed:
  assumes "parts = split_on (CHR ''-'') (basename path)"
    and "length parts < 2 \<or> py_int e (parts ! 1) = None"
  shows "parse_load_step e path = Inl (if length parts < 2 then IndexError else ValueError)"
proof (cases parts)
  case Nil
  with assms(1) show ?thesis by (simp add: parse_load_step_def)
next
  case (Cons a rest)
  show ?thesis
  proof (cases rest)
    case Nil
    with Cons assms(1) show ?thesis by (simp add: parse_load_step_def)
  next
    case (Cons b rest')
    with \<open>parts = a # rest\<close> assms show ?thesis
      by (simp add: parse_load_step_def)
  qed
qed

text \<open>
  C6, as stated, fails: the name \<open>model-5-final\<close> has no integer step suffix, yet the
  script reads its second field, binds \<open>load_step\<close> to 5 and runs to the end.
\<close>

theorem step_suffix_claim_counterexample:
  "\<not> spec_integer_step_suffix (example_env (Some ''./snapshots/model-5-final'') 2)
        (basename ''./snapshots/model-5-final'')
   \<and> fst (restore_checkpoint (example_env (Some ''./snapshots/model-5-final'') 2) example_world) = Inr 5
   \<and> fst (main example_config (example_env (Some ''./snapshots/model-5-final'') 2) example_world) = Inr ()"
proof -
  let ?e = "example_env (Some ''./snapshots/model-5-final'') 2"
  have s: "split_on (CHR ''-'') (basename ''./snapshots/model-5-final'') = [''model'', ''5'', ''final'']"
    by (simp add: basename_def)
  have a: "\<not> spec_integer_step_suffix ?e (basename ''./snapshots/model-5-final'')"
    unfolding spec_integer_step_suffix_def s by (simp add: ascii_int_examples)
  have l: "parse_load_step ?e ''./snapshots/model-5-final'' = Inr 5"
    unfolding parse_load_step_def s by (simp add: ascii_int_examples)
  have r: "restore_checkpoint ?e w
     = (Inr 5, w\<lparr>params := Restored ''./snapshots/model-5-final'',
                 stdout := stdout w @ [Text (''Restored model parameters from '' @ ''./snapshots/model-5-final'')]\<rparr>)" for w
    by (simp add: restore_checkpoint_def example_env_simps l load_def)
  let ?w1 = "(initialise example_config example_world)\<lparr>params := Restored ''./snapshots/model-5-final'',
                 stdout := stdout (initialise example_config example_world) @ [Text (''Restored model parameters from '' @ ''./snapshots/model-5-final'')]\<rparr>"
  let ?w = "with_save_dir ?w1"
  have "save_dir_ready ?e ?w1 = save_dir_ready ?e example_world"
    by (rule save_dir_ready_frame) (simp_all add: initialise_def)
  then have d: "ensure_save_dir ?e ?w1 = (Inr (), ?w)"
    by (simp add: ensure_save_dir_ready example_world_ready)
  have c: "cursor ?w = 0"
    by (simp add: with_save_dir_fields initialise_def example_world_def)
  have "\<forall>k<2. step_succeeds IS_SAVE ?e (params ?w) (cursor ?w + k) (0 + k)"
    unfolding c by (simp add: step_succeeds_def example_env_simps)
  from eval_loop_ok [OF this, of example_config] obtain w' where
    ev: "eval_loop example_config IS_SAVE ?e [0..<0 + 2] ?w = (Inr (), w')"
    by blast
  have "nat (num_steps example_config) = 2"
    by (simp add: example_config_def)
  then have n: "range_steps (num_steps example_config) = [0..<0 + 2]"
    unfolding range_steps_def by (simp only: add_0)
  have "main example_config ?e example_world = eval_loop example_config IS_SAVE ?e [0..<0 + 2] ?w"
    unfolding main_def main_with_def r n by (simp only: prod.case sum.case d)
  with ev have m: "fst (main example_config ?e example_world) = Inr ()"
    by (simp only: fst_conv)
  from a r m show ?thesis by simp
qed

text \<open>
  C6, amended. If a checkpoint exists and the second dash-separated field of its base
  name is missing or is a string on which \<open>int\<close> raises, deriving \<open>load_step\<close> raises
  (\<open>IndexError\<close> for the missing field, \<open>ValueError\<close> for the other), nothing handles
  it, and the run stops there: no fallback to 0, no restore, no step of the loop.
\<close>

theorem malformed_checkpoint_name_aborts:
  assumes "get_checkpoint_state e SNAPSHOT_DIR = Some ckpt"
    and "model_checkpoint_path ckpt \<noteq> []"
    and "parts = split_on (CHR ''-'') (basename (model_checkpoint_path ckpt))"
    and "length parts < 2 \<or> py_int e (parts ! 1) = None"
  shows "restore_checkpoint e w = (Inl (if length parts < 2 then IndexError else ValueError), w)
     \<and> main_with sv args e w0
        = (Inl (if length parts < 2 then IndexError else ValueError), initialise args w0)"
  using assms(1,2) parse_load_step_malformed [OF assms(3,4)]
  by (simp add: main_with_def restore_checkpoint_def)

theorem malformed_checkpoint_name_aborts_witness:
  "get_checkpoint_state (example_env (Some ''./snapshots/model.ckpt'') 2) SNAPSHOT_DIR
     = Some \<lparr>model_checkpoint_path = ''./snapshots/model.ckpt''\<rparr>
   \<and> split_on (CHR ''-'') (basename ''./snapshots/model.ckpt'') = [''model.ckpt'']
   \<and> main example_config (example_env (Some ''./snapshots/model.ckpt'') 2) example_world
       = (Inl IndexError, initialise example_config example_world)
   \<and> split_on (CHR ''-'') (basename ''./snapshots/model-final'') = [''model'', ''final'']
   \<and> py_int (example_env (Some ''./snapshots/model-final'') 2) ''final'' = None
   \<and> main example_config (example_env (Some ''./snapshots/model-final'') 2) example_world
       = (Inl ValueError, initialise example_config example_world)"
proof -
  have s1: "split_on (CHR ''-'') (basename ''./snapshots/model.ckpt'') = [''model.ckpt'']"
    by (simp add: basename_def)
  have s2: "split_on (CHR ''-'') (basename ''./snapshots/model-final'') = [''model'', ''final'']"
    by (simp add: basename_def)
  have p: "py_int e ''final'' = None" for e
    by (rule ascii_int_examples)
  have g: "get_checkpoint_state (example_env (Some path) 2) SNAPSHOT_DIR = Some \<lparr>model_checkpoint_path = path\<rparr>" for path
    by (simp add: example_env_simps)
  from malformed_checkpoint_name_aborts [where e = "example_env (Some ''./snapshots/model.ckpt'') 2"
      and ckpt = "\<lparr>model_checkpoint_path = ''./snapshots/model.ckpt''\<rparr>" and parts = "[''model.ckpt'']"
      and w = example_world and sv = IS_SAVE and args = example_config and ?w0.0 = example_world]
  have a: "main example_config (example_env (Some ''./snapshots/model.ckpt'') 2) example_world
       = (Inl IndexError, initialise example_config example_world)"
    using s1 g by (simp add: main_def)
  from malformed_checkpoint_name_aborts [where e = "example_env (Some ''./snapshots/model-final'') 2"
      and ckpt = "\<lparr>model_checkpoint_path = ''./snapshots/model-final''\<rparr>" and parts = "[''model'', ''final'']"
      and w = example_world and sv = IS_SAVE and args = example_config and ?w0.0 = example_world]
  have b: "main example_config (example_env (Some ''./snapshots/model-final'') 2) example_world
       = (Inl ValueError, initialise example_config example_world)"
    using s2 p g by (simp add: main_def)
  from s1 s2 p a b g show ?thesis by simp
qed

subsection \<open>The loop and the output directory\<close>

lemma sess_run_restore_from:
  "sess_run (args\<lparr>restore_from := r\<rparr>) e w = sess_run args e w"
  by (simp add: sess_run_def split: option.splits)

lemma loop_body_restore_from:
  "loop_body (args\<lparr>restore_from := r\<rparr>) sv e step w = loop_body args sv e step w"
  by (simp add: loop_body_def sess_run_restore_from)

lemma eval_loop_restore_from:
  "eval_loop (args\<lparr>restore_from := r\<rparr>) sv e steps w = eval_loop args sv e steps w"
  by (induction steps arbitrary: w) (simp_all add: loop_body_restore_from split: prod.splits sum.splits)

lemma main_with_after_restore:
  "restore_checkpoint e (initialise args w0) = (Inr load_step, w1) \<Longrightarrow>
   main_with sv args e w0 =
     (if save_dir_ready e w1
      then eval_loop args sv e (range_steps (num_steps args)) (with_save_dir w1)
      else (Inl (if rstrip_slash SAVE_DIR \<in> dom (files w1) then FileExistsError else OSError), w1))"
  by (simp add: main_with_def ensure_save_dir_ready ensure_save_dir_blocked)

text \<open>
  C7. With \<open>num_steps = n\<close> the loop makes exactly \<open>n\<close> passes, steps 0 to \<open>n - 1\<close>, when
  every step goes through: the reader has advanced by \<open>n\<close> and the metric holds the \<open>n\<close>
  updates, whatever the samples were. When step \<open>j\<close> is the first that fails, the run
  stops there with the error of that step, after \<open>j\<close> completed passes.
\<close>

theorem eval_loop_runs_num_steps:
  assumes "num_steps args = int n"
  shows "((\<forall>k<n. step_succeeds sv e (params w) (cursor w + k) k) \<longrightarrow>
           (\<exists>w'. eval_loop args sv e (range_steps (num_steps args)) w = (Inr (), w')
                 \<and> cursor w' = cursor w + n
                 \<and> total_cm w' = foldl (sample_update args e (params w)) (total_cm w)
                                    [cursor w..<cursor w + n]))
       \<and> (\<forall>j<n. (\<forall>k<j. step_succeeds sv e (params w) (cursor w + k) k)
                 \<and> \<not> step_succeeds sv e (params w) (cursor w + j) j \<longrightarrow>
           (\<exists>err w'. eval_loop args sv e (range_steps (num_steps args)) w = (Inl err, w')
                 \<and> err \<in> {RunError, SaveError}
                 \<and> cursor w' = cursor w + j
                      + (if forward e (params w) (cursor w + j) = None then 0 else 1)))"
proof (intro conjI impI allI)
  assume "\<forall>k<n. step_succeeds sv e (params w) (cursor w + k) k"
  then have "\<forall>k<n. step_succeeds sv e (params w) (cursor w + k) (0 + k)"
    by simp
  from eval_loop_ok [OF this, of args]
  show "\<exists>w'. eval_loop args sv e (range_steps (num_steps args)) w = (Inr (), w')
                 \<and> cursor w' = cursor w + n
                 \<and> total_cm w' = foldl (sample_update args e (params w)) (total_cm w)
                                    [cursor w..<cursor w + n]"
    unfolding assms eval_loop_upt0 by blast
next
  fix j
  assume j: "j < n"
    and "(\<forall>k<j. step_succeeds sv e (params w) (cursor w + k) k)
                 \<and> \<not> step_succeeds sv e (params w) (cursor w + j) j"
  then have a: "\<forall>k<j. step_succeeds sv e (params w) (cursor w + k) (0 + k)"
    and b: "\<not> step_succeeds sv e (params w) (cursor w + j) (0 + j)"
    by simp_all
  from eval_loop_fail [OF j a b, of args]
  show "\<exists>err w'. eval_loop args sv e (range_steps (num_steps args)) w = (Inl err, w')
                 \<and> err \<in> {RunError, SaveError}
                 \<and> cursor w' = cursor w + j
                      + (if forward e (params w) (cursor w + j) = None then 0 else 1)"
    unfolding assms eval_loop_upt0 by blast
qed

theorem eval_loop_runs_num_steps_witness:
  "num_steps example_config = int 2
   \<and> step_succeeds False (example_env None 2) Initialized 0 0
   \<and> step_succeeds False (example_env None 2) Initialized 1 1
   \<and> fst (eval_loop example_config False (example_env None 2) (range_steps (num_steps example_config)) example_world) = Inr ()
   \<and> cursor (snd (eval_loop example_config False (example_env None 2) (range_steps (num_steps example_config)) example_world)) = 2
   \<and> step_succeeds False (example_env None 1) Initialized 0 0
   \<and> \<not> step_succeeds False (example_env None 1) Initialized 1 1
   \<and> fst (eval_loop example_config False (example_env None 1) (range_steps (num_steps example_config)) example_world) = Inl RunError
   \<and> cursor (snd (eval_loop example_config False (example_env None 1) (range_steps (num_steps example_config)) example_world)) = 1"
proof -
  have n: "num_steps example_config = int 2"
    by (simp add: example_config_def)
  have p: "params example_world = Initialized" and c: "cursor example_world = 0"
    by (simp_all add: example_world_def)
  have s: "step_succeeds False (example_env None 2) Initialized 0 0"
          "step_succeeds False (example_env None 2) Initialized 1 1"
          "step_succeeds False (example_env None 1) Initialized 0 0"
          "\<not> step_succeeds False (example_env None 1) Initialized 1 1"
    by (simp_all add: step_succeeds_def example_env_simps)
  note t = eval_loop_runs_num_steps [OF n, of False _ example_world]
  have "\<forall>k<2. step_succeeds False (example_env None 2) (params example_world) (cursor example_world + k) k"
    unfolding p c using s(1,2) by (simp add: less_Suc_eq numeral_2_eq_2)
  with t [of "example_env None 2"] obtain w' where
    ok: "eval_loop example_config False (example_env None 2) (range_steps (num_steps example_config)) example_world = (Inr (), w')"
        "cursor w' = cursor example_world + 2"
    by blast
  have "(\<forall>k<1. step_succeeds False (example_env None 1) (params example_world) (cursor example_world + k) k)
        \<and> \<not> step_succeeds False (example_env None 1) (params example_world) (cursor example_world + 1) 1"
    unfolding p c using s(3,4) by simp
  with t [of "example_env None 1"] obtain err w'' where
    bad: "eval_loop example_config False (example_env None 1) (range_steps (num_steps example_config)) example_world = (Inl err, w'')"
         "err \<in> {RunError, SaveError}"
         "cursor w'' = cursor example_world + 1
             + (if forward (example_env None 1) (params example_world) (cursor example_world + 1) = None then 0 else 1)"
    by (metis one_less_numeral_iff semiring_norm(76))
  have e: "err = RunError"
  proof (rule ccontr)
    assume "err \<noteq> RunError"
    with bad(2) have "err = SaveError" by simp
    moreover have "fst (eval_loop example_config False (example_env None 1) steps w) \<noteq> Inl SaveError" for steps w
      by (induction steps arbitrary: w)
         (auto simp: loop_body_def sess_run_def split: option.splits prod.splits sum.splits)
    ultimately show False using bad(1) by (metis fst_conv)
  qed
  show ?thesis
    unfolding ok(1) bad(1) using n s ok(2) bad(3) e c p by (simp add: example_env_simps)
qed

text \<open>
  C9. The value of \<open>--restore-from\<close> is never read: two runs that differ in it alone
  restore the same checkpoint, found through \<open>SNAPSHOT_DIR\<close>, and are the same run.
\<close>

theorem restore_from_never_read:
  "main (args\<lparr>restore_from := r\<rparr>) e w0 = main args e w0
   \<and> main_with sv (args\<lparr>restore_from := r\<rparr>) e w0 = main_with sv args e w0
   \<and> restore_checkpoint e (initialise (args\<lparr>restore_from := r\<rparr>) w0)
       = restore_checkpoint e (initialise args w0)"
  by (simp add: main_def main_with_def initialise_def eval_loop_restore_from
           split: prod.splits sum.splits)

text \<open>
  C10, as stated, fails: a run whose checkpoint name has no dash stops at line 121,
  before line 130, and leaves no output directory behind; and a run that finds a regular
  file \<open>./output\<close> stops at line 131 with \<open>FileExistsError\<close>, before the loop, again
  with no output directory.
\<close>

theorem save_dir_claim_counterexample:
  "SAVE_DIR \<notin> dirs (snd (main example_config (example_env (Some ''./snapshots/model.ckpt'') 2) example_world))
   \<and> fst (main example_config (example_env (Some ''./snapshots/model.ckpt'') 2) example_world) = Inl IndexError
   \<and> SAVE_DIR \<notin> dirs (snd (main example_config (example_env None 2) blocked_world))
   \<and> fst (main example_config (example_env None 2) blocked_world) = Inl FileExistsError
   \<and> cursor (snd (main example_config (example_env None 2) blocked_world)) = 0"
proof -
  have "parse_load_step e ''./snapshots/model.ckpt'' = Inl IndexError" for e
    by (simp add: parse_load_step_def basename_def)
  then have "main example_config (example_env (Some ''./snapshots/model.ckpt'') 2) example_world
      = (Inl IndexError, initialise example_config example_world)"
    by (simp add: main_def main_with_def restore_checkpoint_def example_env_simps)
  then have a: "SAVE_DIR \<notin> dirs (snd (main example_config (example_env (Some ''./snapshots/model.ckpt'') 2) example_world))
      \<and> fst (main example_config (example_env (Some ''./snapshots/model.ckpt'') 2) example_world) = Inl IndexError"
    by (simp add: initialise_def example_world_def)
  let ?w1 = "(initialise example_config blocked_world)\<lparr>stdout := stdout blocked_world @ [Text ''No checkpoint file found.'']\<rparr>"
  have r: "restore_checkpoint (example_env None 2) (initialise example_config blocked_world) = (Inr 0, ?w1)"
    by (simp add: restore_checkpoint_none example_env_simps initialise_def)
  have "save_dir_ready (example_env None 2) ?w1 = save_dir_ready (example_env None 2) blocked_world"
    and f: "files ?w1 = files blocked_world"
    by (rule save_dir_ready_frame) (simp_all add: initialise_def)
  then have n: "\<not> save_dir_ready (example_env None 2) ?w1"
    and x: "rstrip_slash SAVE_DIR \<in> dom (files ?w1)"
    using blocked_world_not_ready by simp_all
  have "main example_config (example_env None 2) blocked_world = (Inl FileExistsError, ?w1)"
    unfolding main_def main_with_after_restore [OF r] using n x by (simp only: if_False if_True)
  then have b: "SAVE_DIR \<notin> dirs (snd (main example_config (example_env None 2) blocked_world))
      \<and> fst (main example_config (example_env None 2) blocked_world) = Inl FileExistsError
      \<and> cursor (snd (main example_config (example_env None 2) blocked_world)) = 0"
    by (simp add: initialise_def blocked_world_def example_world_def)
  from a b show ?thesis by simp
qed

text \<open>
  C10, amended. On every run in which the checkpoint branch raises nothing, lines 130
  and 131 are reached before the loop, whether or not masks are saved. When the output
  directory is there or can be made, it exists before the loop starts and after the run,
  whether or not any mask was written and whether or not the loop then fails. When it
  cannot be made, the run stops there with the error of \<open>os.makedirs\<close>, before any step.
\<close>

theorem save_dir_created_before_loop:
  assumes "restore_checkpoint e (initialise args w0) = (Inr load_step, w1)"
  shows "(save_dir_ready e w1 \<longrightarrow>
            ensure_save_dir e w1 = (Inr (), with_save_dir w1)
          \<and> main_with sv args e w0
               = eval_loop args sv e (range_steps (num_steps args)) (with_save_dir w1)
          \<and> SAVE_DIR \<in> dirs (with_save_dir w1)
          \<and> SAVE_DIR \<in> dirs (snd (main_with sv args e w0))
          \<and> SAVE_DIR \<in> dirs (snd (main args e w0)))
     \<and> (\<not> save_dir_ready e w1 \<longrightarrow>
            main_with sv args e w0
              = (Inl (if rstrip_slash SAVE_DIR \<in> dom (files w1) then FileExistsError else OSError), w1)
          \<and> cursor (snd (main_with sv args e w0)) = cursor w0)
     \<and> save_dir_ready e w1 = save_dir_ready e w0"
proof (intro conjI impI)
  assume ready: "save_dir_ready e w1"
  show "ensure_save_dir e w1 = (Inr (), with_save_dir w1)"
    using ready by (rule ensure_save_dir_ready)
  show "main_with sv args e w0
          = eval_loop args sv e (range_steps (num_steps args)) (with_save_dir w1)"
    unfolding main_with_after_restore [OF assms] using ready by simp
  show "SAVE_DIR \<in> dirs (with_save_dir w1)"
    by (rule with_save_dir_fields)
  show "SAVE_DIR \<in> dirs (snd (main_with sv args e w0))"
    unfolding main_with_after_restore [OF assms] using ready
    by (simp add: eval_loop_dirs with_save_dir_fields)
  show "SAVE_DIR \<in> dirs (snd (main args e w0))"
    unfolding main_def main_with_after_restore [OF assms] using ready
    by (simp add: eval_loop_dirs with_save_dir_fields)
next
  assume blocked: "\<not> save_dir_ready e w1"
  show "main_with sv args e w0
          = (Inl (if rstrip_slash SAVE_DIR \<in> dom (files w1) then FileExistsError else OSError), w1)"
    unfolding main_with_after_restore [OF assms] using blocked by simp
  from restore_checkpoint_frame [OF assms] have "cursor w1 = cursor w0"
    by (simp add: initialise_def)
  then show "cursor (snd (main_with sv args e w0)) = cursor w0"
    unfolding main_with_after_restore [OF assms] using blocked by simp
next
  from restore_checkpoint_frame [OF assms]
  have "dirs w1 = dirs w0" and "files w1 = files w0"
    by (simp_all add: initialise_def)
  then show "save_dir_ready e w1 = save_dir_ready e w0"
    by (rule save_dir_ready_frame)
qed

theorem save_dir_created_before_loop_witness:
  "restore_checkpoint (example_env None 0) (initialise example_config example_world)
     = (Inr 0, (initialise example_config example_world)\<lparr>stdout := [Text ''No checkpoint file found.'']\<rparr>)
   \<and> save_dir_ready (example_env None 0) example_world
   \<and> SAVE_DIR \<notin> dirs example_world
   \<and> fst (main example_config (example_env None 0) example_world) = Inl RunError
   \<and> files (snd (main example_config (example_env None 0) example_world)) = Map.empty
   \<and> SAVE_DIR \<in> dirs (snd (main example_config (example_env None 0) example_world))
   \<and> restore_checkpoint (example_env None 0) (initialise example_config blocked_world)
     = (Inr 0, (initialise example_config blocked_world)\<lparr>stdout := [Text ''No checkpoint file found.'']\<rparr>)
   \<and> \<not> save_dir_ready (example_env None 0) blocked_world
   \<and> fst (main_with True example_config (example_env None 0) blocked_world) = Inl FileExistsError
   \<and> cursor (snd (main_with True example_config (example_env None 0) blocked_world)) = 0"
proof -
  let ?e = "example_env None 0"
  let ?w1 = "(initialise example_config example_world)\<lparr>stdout := [Text ''No checkpoint file found.'']\<rparr>"
  let ?b1 = "(initialise example_config blocked_world)\<lparr>stdout := [Text ''No checkpoint file found.'']\<rparr>"
  have r: "restore_checkpoint ?e (initialise example_config example_world) = (Inr 0, ?w1)"
    by (simp add: restore_checkpoint_none example_env_simps initialise_def example_world_def)
  have rb: "restore_checkpoint ?e (initialise example_config blocked_world) = (Inr 0, ?b1)"
    by (simp add: restore_checkpoint_none example_env_simps initialise_def blocked_world_def example_world_def)
  note t = save_dir_created_before_loop [OF r, of IS_SAVE]
  note tb = save_dir_created_before_loop [OF rb, of True]
  from t have "save_dir_ready ?e ?w1 = save_dir_ready ?e example_world"
    by simp
  then have ready: "save_dir_ready ?e ?w1"
    by (simp add: example_world_ready)
  from tb have "save_dir_ready ?e ?b1 = save_dir_ready ?e blocked_world"
    by simp
  then have blocked: "\<not> save_dir_ready ?e ?b1"
    by (simp add: blocked_world_not_ready)
  have xb: "rstrip_slash SAVE_DIR \<in> dom (files ?b1)"
    using blocked_world_not_ready(2) by (simp add: initialise_def)
  from t ready have l: "main_with IS_SAVE example_config ?e example_world
      = eval_loop example_config IS_SAVE ?e (range_steps (num_steps example_config)) (with_save_dir ?w1)"
    and d: "SAVE_DIR \<in> dirs (snd (main example_config ?e example_world))"
    by simp_all
  have n: "range_steps (num_steps example_config) = [0, 1]"
    by (simp add: range_steps_def example_config_def upt_rec)
  have "loop_body example_config IS_SAVE ?e 0 (with_save_dir ?w1) = (Inl RunError, with_save_dir ?w1)"
    by (simp add: loop_body_def sess_run_def example_env_simps with_save_dir_fields initialise_def example_world_def)
  then have m: "main example_config ?e example_world = (Inl RunError, with_save_dir ?w1)"
    unfolding main_def l n by simp
  have fe: "files (with_save_dir ?w1) = Map.empty"
    by (simp add: with_save_dir_fields initialise_def example_world_def)
  from tb blocked xb have mb: "main_with True example_config ?e blocked_world = (Inl FileExistsError, ?b1)"
    by simp
  have cb: "cursor (snd (main_with True example_config ?e blocked_world)) = 0"
    unfolding mb by (simp add: initialise_def blocked_world_def example_world_def)
  have nd: "SAVE_DIR \<notin> dirs example_world"
    by (simp add: example_world_def)
  from r rb m fe d mb cb nd show ?thesis
    by (simp add: example_world_ready blocked_world_not_ready)
qed

subsection \<open>Mask files\<close>

lemma mask_paths:
  "SAVE_DIR @ mask_filename 0 = ''./output/mask0.png''"
  "SAVE_DIR @ mask_filename (Suc 0) = ''./output/mask1.png''"
  by code_simp+

lemma mask_paths_in_directory:
  "in_directory SAVE_DIR ''./output/mask0.png''"
  "in_directory SAVE_DIR ''./output/mask1.png''"
  by (simp_all add: in_directory_def SAVE_DIR_def)

lemma loop_body_files:
  "loop_body args sv e step w = (Inr (), w1) \<Longrightarrow>
   files w1 = (if sv then (files w)(SAVE_DIR @ mask_filename step \<mapsto> fst (the (forward e (params w) (cursor w))))
              else files w)"
  by (cases "step_succeeds sv e (params w) (cursor w) step")
     (use loop_body_ok [of sv e w step args] loop_body_fail [of sv e w step args] in auto)

lemma main_with_files:
  assumes "main_with sv args e w0 = (Inr (), w')"
  shows "dom (files w') = (if sv then dom (files w0) \<union> (\<lambda>s. SAVE_DIR @ mask_filename s) ` {0..<nat (num_steps args)}
                          else dom (files w0))
         \<and> SAVE_DIR \<in> dirs w'"
proof -
  obtain r w1 where r: "restore_checkpoint e (initialise args w0) = (r, w1)"
    by (cases "restore_checkpoint e (initialise args w0)")
  with assms obtain load_step where l: "r = Inr load_step"
    by (cases r) (auto simp: main_with_def)
  from restore_checkpoint_frame [OF r] have f: "files w1 = files w0"
    by (simp add: initialise_def)
  have ready: "save_dir_ready e w1"
  proof (rule ccontr)
    assume "\<not> save_dir_ready e w1"
    with assms main_with_after_restore [OF r [unfolded l], of sv] show False
      by simp
  qed
  let ?w = "with_save_dir w1"
  let ?n = "nat (num_steps args)"
  from assms main_with_after_restore [OF r [unfolded l], of sv] ready
  have ev: "eval_loop args sv e [0..<0 + ?n] ?w = (Inr (), w')"
    by (simp add: range_steps_def)
  then have "\<forall>k<?n. step_succeeds sv e (params ?w) (cursor ?w + k) (0 + k)"
    using eval_loop_succeeds_iff [of args sv e 0 ?n ?w] by blast
  from eval_loop_ok [OF this, of args] ev
  have "dirs w' = dirs ?w"
    and "dom (files w') = (if sv then dom (files ?w) \<union> (\<lambda>s. SAVE_DIR @ mask_filename s) ` {0..<0 + ?n}
                          else dom (files ?w))"
    by auto
  then show ?thesis
    using f by (simp add: with_save_dir_fields)
qed

lemma restrict_union_pair:
  "(\<forall>p \<in> D. \<not> P p) \<Longrightarrow> P a \<Longrightarrow> P b \<Longrightarrow> {p \<in> D \<union> {a, b}. P p} = {a, b}"
  by blast

lemma image_upt_two: "f ` {0..<nat 2} = {f 0, f (Suc 0)}"
proof -
  have "{0..<nat 2} = {0, Suc 0}" by auto
  then show ?thesis by (simp only: image_insert image_empty)
qed

text \<open>
  C8. After a run with saving enabled that ends without an error, the files on disk are
  those that were there plus one per step, \<open>mask{s}.png\<close> in the output directory; with
  two steps these are \<open>mask0.png\<close> and \<open>mask1.png\<close>, and they are all the output
  directory holds when it held no file before. The output directory exists. A step that
  goes through writes exactly the file of its own number when saving is enabled and
  none when it is not.
\<close>

theorem masks_written_per_step:
  assumes "main_with True args e w0 = (Inr (), w')"
  shows "dom (files w') = dom (files w0) \<union> (\<lambda>s. SAVE_DIR @ mask_filename s) ` {0..<nat (num_steps args)}
     \<and> (num_steps args = 2 \<longrightarrow>
          dom (files w') = dom (files w0) \<union> {''./output/mask0.png'', ''./output/mask1.png''})
     \<and> (num_steps args = 2 \<and> (\<forall>p \<in> dom (files w0). \<not> in_directory SAVE_DIR p) \<longrightarrow>
          {p \<in> dom (files w'). in_directory SAVE_DIR p} = {''./output/mask0.png'', ''./output/mask1.png''})
     \<and> SAVE_DIR \<in> dirs w'
     \<and> (\<forall>step w w1. loop_body args True e step w = (Inr (), w1) \<longrightarrow>
          (\<exists>preds. files w1 = (files w)(SAVE_DIR @ mask_filename step \<mapsto> preds)))
     \<and> (\<forall>step w w1. loop_body args False e step w = (Inr (), w1) \<longrightarrow> files w1 = files w)"
proof -
  from main_with_files [OF assms]
  have d: "dom (files w') = dom (files w0) \<union> (\<lambda>s. SAVE_DIR @ mask_filename s) ` {0..<nat (num_steps args)}"
    and s: "SAVE_DIR \<in> dirs w'"
    by simp_all
  have two: "(\<lambda>s. SAVE_DIR @ mask_filename s) ` {0..<nat 2} = {''./output/mask0.png'', ''./output/mask1.png''}"
    by (simp only: image_upt_two mask_paths)
  have a: "dom (files w') = dom (files w0) \<union> {''./output/mask0.png'', ''./output/mask1.png''}"
    if "num_steps args = 2"
    using d unfolding that two .
  have b: "{p \<in> dom (files w'). in_directory SAVE_DIR p} = {''./output/mask0.png'', ''./output/mask1.png''}"
    if h: "num_steps args = 2 \<and> (\<forall>p \<in> dom (files w0). \<not> in_directory SAVE_DIR p)"
  proof -
    from h have n: "num_steps args = 2" and e: "\<forall>p \<in> dom (files w0). \<not> in_directory SAVE_DIR p"
      by (rule conjunct1, rule conjunct2)
    show ?thesis
      unfolding a [OF n] using e mask_paths_in_directory by (rule restrict_union_pair)
  qed
  have c: "\<exists>preds. files w1 = (files w)(SAVE_DIR @ mask_filename step \<mapsto> preds)"
    if "loop_body args True e step w = (Inr (), w1)" for step w w1
  proof -
    from loop_body_files [OF that]
    have "files w1 = (files w)(SAVE_DIR @ mask_filename step \<mapsto> fst (the (forward e (params w) (cursor w))))"
      by (simp only: if_True)
    then show ?thesis by (rule exI)
  qed
  have c': "files w1 = files w"
    if "loop_body args False e step w = (Inr (), w1)" for step w w1
    using loop_body_files [OF that] by (simp only: if_False)
  show ?thesis
  proof (intro conjI impI allI)
    show "dom (files w') = dom (files w0) \<union> (\<lambda>s. SAVE_DIR @ mask_filename s) ` {0..<nat (num_steps args)}"
      by (rule d)
    show "dom (files w') = dom (files w0) \<union> {''./output/mask0.png'', ''./output/mask1.png''}"
      if "num_steps args = 2"
      using that by (rule a)
    show "{p \<in> dom (files w'). in_directory SAVE_DIR p} = {''./output/mask0.png'', ''./output/mask1.png''}"
      if "num_steps args = 2 \<and> (\<forall>p \<in> dom (files w0). \<not> in_directory SAVE_DIR p)"
      using that by (rule b)
    show "SAVE_DIR \<in> dirs w'"
      by (rule s)
    show "\<exists>preds. files w1 = (files w)(SAVE_DIR @ mask_filename step \<mapsto> preds)"
      if "loop_body args True e step w = (Inr (), w1)" for step w w1
      using that by (rule c)
    show "files w1 = files w"
      if "loop_body args False e step w = (Inr (), w1)" for step w w1
      using that by (rule c')
  qed
qed

theorem masks_written_per_step_witness:
  "fst (main_with True example_config (example_env None 2) example_world) = Inr ()
   \<and> num_steps example_config = 2
   \<and> dom (files example_world) = {}
   \<and> SAVE_DIR \<notin> dirs example_world
   \<and> dom (files (snd (main_with True example_config (example_env None 2) example_world)))
       = {''./output/mask0.png'', ''./output/mask1.png''}
   \<and> {p \<in> dom (files (snd (main_with True example_config (example_env None 2) example_world))).
         in_directory SAVE_DIR p} = {''./output/mask0.png'', ''./output/mask1.png''}
   \<and> SAVE_DIR \<in> dirs (snd (main_with True example_config (example_env None 2) example_world))"
proof -
  let ?e = "example_env None 2"
  let ?w = "with_save_dir ((initialise example_config example_world)\<lparr>stdout := stdout example_world @ [Text ''No checkpoint file found.'']\<rparr>)"
  have g: "get_checkpoint_state ?e SNAPSHOT_DIR = None"
    by (simp add: example_env_simps)
  have n: "num_steps example_config = 2" and f: "dom (files example_world) = {}"
    and x: "SAVE_DIR \<notin> dirs example_world"
    by (simp_all add: example_config_def example_world_def)
  have c: "cursor ?w = 0"
    by (simp add: with_save_dir_fields initialise_def example_world_def)
  have "\<forall>k<2. step_succeeds True ?e (params ?w) (cursor ?w + k) (0 + k)"
    unfolding c by (simp add: step_succeeds_def example_env_simps)
  from eval_loop_ok [OF this, of example_config] obtain w' where
    ev: "eval_loop example_config True ?e [0..<0 + 2] ?w = (Inr (), w')"
    by blast
  have "nat (num_steps example_config) = 2"
    using n by simp
  then have r: "range_steps (num_steps example_config) = [0..<0 + 2]"
    unfolding range_steps_def by (simp only: add_0)
  have m: "main_with True example_config ?e example_world = (Inr (), w')"
    unfolding main_with_no_checkpoint_ready [OF g example_world_ready] r by (rule ev)
  note t = masks_written_per_step [OF m]
  have h: "num_steps example_config = 2 \<and> (\<forall>p \<in> dom (files example_world). \<not> in_directory SAVE_DIR p)"
    by (simp only: n f ball_empty simp_thms)
  from t [THEN conjunct2, THEN conjunct1, THEN mp, OF n]
  have a: "dom (files w') = {''./output/mask0.png'', ''./output/mask1.png''}"
    by (simp only: f Un_empty_left)
  from t [THEN conjunct2, THEN conjunct2, THEN conjunct1, THEN mp, OF h]
  have b: "{p \<in> dom (files w'). in_directory SAVE_DIR p} = {''./output/mask0.png'', ''./output/mask1.png''}" .
  from t [THEN conjunct2, THEN conjunct2, THEN conjunct2, THEN conjunct1]
  have s: "SAVE_DIR \<in> dirs w'" .
  show ?thesis
    unfolding m fst_conv snd_conv
    by (intro conjI refl n f x a b s)
qed

end
